theory Spec2Isabelle
  imports Main "HOL-Library.Word"
begin

section \<open>The ext4 size model of \<open>service/gcsutils/fs/ext4.go\<close>\<close>

text \<open>
  The Go source keeps four \<open>uint64\<close> fields in \<open>Ext4Fs\<close>. They are modelled as 64-bit
  words, so that \<open>+\<close>, \<open>-\<close> and \<open>*\<close> wrap around modulo \<open>2 ^ 64\<close> exactly as Go's
  unsigned arithmetic does, and \<open>mod\<close> is the unsigned remainder.

  Every method returns Go's \<open>error\<close>; a run-time panic (integer division by zero in
  \<open>n % alignto\<close>) is a failure as well. Both are values of the type \<open>error\<close> below, and
  every method is a function from the receiver's state to \<open>error + Ext4Fs\<close>.
  Calls of \<open>logrus.Infof\<close> only write a log line; they do not touch the receiver and
  are left out.
\<close>

type_synonym uint64 = "64 word"

record Ext4Fs =
  BlockSize :: uint64
  InodeSize :: uint64
  totalSize :: uint64
  numInodes :: uint64

record FilesystemSizeInfo =
  NumInodes :: uint64
  TotalSize :: uint64

datatype error =
    PanicDivideByZero     \<comment> \<open>run-time panic: integer divide by zero\<close>
  | ExitError nat         \<comment> \<open>the error of \<open>exec.Cmd.Run\<close>: the tool's non-zero exit status\<close>

subsection \<open>Helpers\<close>

definition maxU64 :: "uint64 \<Rightarrow> uint64 \<Rightarrow> uint64" where
  "maxU64 x y = (if x > y then x else y)"

text \<open>\<open>alignN\<close> evaluates \<open>n % alignto\<close> first; Go panics there when \<open>alignto\<close> is zero.\<close>

definition alignN :: "uint64 \<Rightarrow> uint64 \<Rightarrow> error + uint64" where
  "alignN n alignto =
     (if alignto = 0 then Inl PanicDivideByZero
      else if n mod alignto = 0 then Inr n
      else Inr (n + alignto - n mod alignto))"

definition addInode :: "Ext4Fs \<Rightarrow> Ext4Fs" where
  "addInode e =
     (let e1 = e\<lparr>numInodes := numInodes e + 1\<rparr>
      in e1\<lparr>totalSize := totalSize e1 + InodeSize e1\<rparr>)"

subsection \<open>The size context\<close>

definition InitSizeContext :: "Ext4Fs \<Rightarrow> error + Ext4Fs" where
  "InitSizeContext e =
     (let e1 = e\<lparr>numInodes := 11\<rparr>;
          e2 = e1\<lparr>totalSize := maxU64 (2048 + numInodes e1 * InodeSize e1) (BlockSize e1)\<rparr>
      in Inr e2)"

definition CalcRegFileSize :: "string \<Rightarrow> uint64 \<Rightarrow> Ext4Fs \<Rightarrow> error + Ext4Fs" where
  "CalcRegFileSize fileName fileSize e =
     (let e1 = addInode e;
          e2 = e1\<lparr>totalSize := totalSize e1 + BlockSize e1\<rparr>
      in case alignN fileSize (BlockSize e2) of
           Inl err \<Rightarrow> Inl err
         | Inr a \<Rightarrow> Inr (e2\<lparr>totalSize := totalSize e2 + a\<rparr>))"

definition CalcDirSize :: "string \<Rightarrow> Ext4Fs \<Rightarrow> error + Ext4Fs" where
  "CalcDirSize dirName e =
     (let e1 = addInode e
      in Inr (e1\<lparr>totalSize := totalSize e1 + 3 * BlockSize e1\<rparr>))"

text \<open>
  \<open>len(dstName)\<close> is the number of bytes of the Go string; \<open>string\<close> is a list of
  8-bit characters, so \<open>length\<close> counts the same. \<open>uint64(len(dstName))\<close> is \<open>of_nat\<close>.
\<close>

definition CalcSymlinkSize :: "string \<Rightarrow> string \<Rightarrow> Ext4Fs \<Rightarrow> error + Ext4Fs" where
  "CalcSymlinkSize srcName dstName e =
     (let e1 = addInode e
      in if length dstName > 60
         then (case alignN (of_nat (length dstName)) (BlockSize e1) of
                 Inl err \<Rightarrow> Inl err
               | Inr a \<Rightarrow> Inr (e1\<lparr>totalSize := totalSize e1 + a\<rparr>))
         else Inr e1)"

definition CalcHardlinkSize :: "string \<Rightarrow> string \<Rightarrow> Ext4Fs \<Rightarrow> error + Ext4Fs" where
  "CalcHardlinkSize srcName dstName e = Inr (e\<lparr>totalSize := totalSize e + BlockSize e\<rparr>)"

definition CalcCharDeviceSize :: "string \<Rightarrow> uint64 \<Rightarrow> uint64 \<Rightarrow> Ext4Fs \<Rightarrow> error + Ext4Fs" where
  "CalcCharDeviceSize devName major minor e = Inr (addInode e)"

definition CalcBlockDeviceSize :: "string \<Rightarrow> uint64 \<Rightarrow> uint64 \<Rightarrow> Ext4Fs \<Rightarrow> error + Ext4Fs" where
  "CalcBlockDeviceSize devName major minor e = Inr (addInode e)"

definition CalcFIFOPipeSize :: "string \<Rightarrow> Ext4Fs \<Rightarrow> error + Ext4Fs" where
  "CalcFIFOPipeSize pipeName e = Inr (addInode e)"

definition CalcSocketSize :: "string \<Rightarrow> Ext4Fs \<Rightarrow> error + Ext4Fs" where
  "CalcSocketSize sockName e = Inr (addInode e)"

definition CalcAddExAttrSize ::
  "string \<Rightarrow> string \<Rightarrow> 8 word list \<Rightarrow> int \<Rightarrow> Ext4Fs \<Rightarrow> error + Ext4Fs" where
  "CalcAddExAttrSize fileName attr data flags e = Inr e"

definition GetSizeInfo :: "Ext4Fs \<Rightarrow> FilesystemSizeInfo" where
  "GetSizeInfo e = \<lparr>NumInodes = numInodes e, TotalSize = totalSize e\<rparr>"

definition CleanupSizeContext :: "Ext4Fs \<Rightarrow> error + Ext4Fs" where
  "CleanupSizeContext e = Inr e"

subsection \<open>Finalisation: \<open>uint64(float64(x) * 1.50)\<close>\<close>

text \<open>
  \<open>FinalizeSizeContext\<close> scales both counters through IEEE-754 binary64. The numbers
  that arise are non-negative and are either integers or integers plus one half, so a
  \<open>float64\<close> is represented here by a natural number counted in the unit the comment
  of each function names. A binary64 keeps 53 significant bits and rounds to nearest,
  ties to even; \<open>round53\<close> is that rounding on a natural number (it commutes with a
  change of unit by a power of two, and no exponent limit is reached below \<open>2 ^ 66\<close>).
\<close>

fun bitlen :: "nat \<Rightarrow> nat" where
  "bitlen n = (if n = 0 then 0 else Suc (bitlen (n div 2)))"

declare bitlen.simps [simp del]

definition round53 :: "nat \<Rightarrow> nat" where
  "round53 k =
     (if k < 2 ^ 53 then k
      else let sh = bitlen k - 53;
               q = k div 2 ^ sh;
               r = k mod 2 ^ sh;
               half = 2 ^ (sh - 1)
           in (if r > half \<or> (r = half \<and> odd q) then q + 1 else q) * 2 ^ sh)"

text \<open>\<open>float64(x)\<close> for a \<open>uint64\<close>: the result is an integer, counted in units of one.\<close>

definition float64_of_uint64 :: "uint64 \<Rightarrow> nat" where
  "float64_of_uint64 x = round53 (unat x)"

text \<open>
  \<open>f * 1.50\<close> for an integer-valued \<open>f\<close>: the exact product is \<open>3 * f / 2\<close>; the
  result is counted in halves.
\<close>

definition mul_1_50 :: "nat \<Rightarrow> nat" where
  "mul_1_50 f = round53 (3 * f)"

text \<open>
  \<open>uint64(g)\<close> for a \<open>float64\<close> counted in halves: the fraction is discarded. When
  the value does not fit, Go leaves the result to the implementation; \<open>ovf\<close> is the
  value the platform produces there.
\<close>

definition uint64_of_float64 :: "(nat \<Rightarrow> uint64) \<Rightarrow> nat \<Rightarrow> uint64" where
  "uint64_of_float64 ovf g = (if g div 2 < 2 ^ 64 then of_nat (g div 2) else ovf g)"

definition scale_1_50 :: "(nat \<Rightarrow> uint64) \<Rightarrow> uint64 \<Rightarrow> uint64" where
  "scale_1_50 ovf x = uint64_of_float64 ovf (mul_1_50 (float64_of_uint64 x))"

text \<open>
  The guard \<open>e.totalSize%(64*e.BlockSize) != 0\<close> divides before \<open>alignN\<close> is reached,
  so the panic for \<open>64*BlockSize = 0\<close> (modulo \<open>2 ^ 64\<close>) is raised by the guard.
\<close>

definition FinalizeSizeContext :: "(nat \<Rightarrow> uint64) \<Rightarrow> Ext4Fs \<Rightarrow> error + Ext4Fs" where
  "FinalizeSizeContext ovf e =
     (let e1 = e\<lparr>totalSize := scale_1_50 ovf (totalSize e)\<rparr>;
          e2 = e1\<lparr>numInodes := scale_1_50 ovf (numInodes e1)\<rparr>
      in if 64 * BlockSize e2 = 0 then Inl PanicDivideByZero
         else if totalSize e2 mod (64 * BlockSize e2) \<noteq> 0
         then (case alignN (totalSize e2) (64 * BlockSize e2) of
                 Inl err \<Rightarrow> Inl err
               | Inr a \<Rightarrow> Inr (e2\<lparr>totalSize := a\<rparr>))
         else Inr e2)"

text \<open>An implementation whose out-of-range conversion saturates.\<close>

definition ovf_saturate :: "nat \<Rightarrow> uint64" where
  "ovf_saturate g = - 1"

subsection \<open>Formatting\<close>

text \<open>
  \<open>MakeFileSystem\<close> runs \<open>mkfs.ext4\<close> and, when that fails, sleeps before it returns
  the error. The external tool is the parameter \<open>run\<close>, from the command line to the
  error of \<open>exec.Cmd.Run\<close> (\<open>None\<close> for exit status 0). The result is the list of
  effects in order and the returned error. Durations are nanoseconds, as Go's
  \<open>time.Duration\<close>.
\<close>

datatype effect =
    Exec "string list"
  | Sleep nat

definition Hour :: nat where
  "Hour = 3600 * 1000000000"

fun FormatUint10 :: "nat \<Rightarrow> string" where
  "FormatUint10 n =
     (if n < 10 then [''0123456789'' ! n]
      else FormatUint10 (n div 10) @ [''0123456789'' ! (n mod 10)])"

declare FormatUint10.simps [simp del]

definition MakeFileSystem ::
  "(string list \<Rightarrow> error option) \<Rightarrow> Ext4Fs \<Rightarrow> string \<Rightarrow> effect list \<times> error option" where
  "MakeFileSystem run e fileName =
     (let blockSize = FormatUint10 (unat (BlockSize e));
          inodeSize = FormatUint10 (unat (InodeSize e));
          numInodes = FormatUint10 (unat (numInodes e));
          cmd = [''mkfs.ext4'', ''-O'', ''^has_journal,^resize_inode'',
                 ''-N'', numInodes, ''-b'', blockSize, ''-I'', inodeSize, ''-F'', fileName];
          err = run cmd
      in case err of
           Some x \<Rightarrow> ([Exec cmd, Sleep (100 * Hour)], err)
         | None \<Rightarrow> ([Exec cmd], err))"

definition MakeBasicFileSystem ::
  "(string list \<Rightarrow> error option) \<Rightarrow> Ext4Fs \<Rightarrow> string \<Rightarrow> effect list \<times> error option" where
  "MakeBasicFileSystem run e fileName =
     (let cmd = [''mkfs.ext4'', ''-F'', fileName] in ([Exec cmd], run cmd))"

text \<open>A formatting tool that always exits with status 1.\<close>

definition mkfs_fails :: "string list \<Rightarrow> error option" where
  "mkfs_fails cmd = Some (ExitError 1)"

subsection \<open>Sequences of calls\<close>

text \<open>
  One constructor per \<open>Calc...Size\<close> method, carrying the method's arguments, so that
  a list of entries is a sequence of calls on one receiver. A failing call ends the
  sequence with its failure.
\<close>

datatype entry =
    RegFile string uint64
  | Dir string
  | Symlink string string
  | Hardlink string string
  | CharDevice string uint64 uint64
  | BlockDevice string uint64 uint64
  | FIFOPipe string
  | Socket string
  | ExAttr string string "8 word list" int

fun calc :: "entry \<Rightarrow> Ext4Fs \<Rightarrow> error + Ext4Fs" where
  "calc (RegFile fileName fileSize) e = CalcRegFileSize fileName fileSize e"
| "calc (Dir dirName) e = CalcDirSize dirName e"
| "calc (Symlink srcName dstName) e = CalcSymlinkSize srcName dstName e"
| "calc (Hardlink srcName dstName) e = CalcHardlinkSize srcName dstName e"
| "calc (CharDevice devName major minor) e = CalcCharDeviceSize devName major minor e"
| "calc (BlockDevice devName major minor) e = CalcBlockDeviceSize devName major minor e"
| "calc (FIFOPipe pipeName) e = CalcFIFOPipeSize pipeName e"
| "calc (Socket sockName) e = CalcSocketSize sockName e"
| "calc (ExAttr fileName attr data flags) e = CalcAddExAttrSize fileName attr data flags e"

fun calc_all :: "entry list \<Rightarrow> Ext4Fs \<Rightarrow> error + Ext4Fs" where
  "calc_all [] e = Inr e"
| "calc_all (x # xs) e =
     (case calc x e of Inl err \<Rightarrow> Inl err | Inr e' \<Rightarrow> calc_all xs e')"

text \<open>
  The next multiple of \<open>a\<close> at or above \<open>n\<close>, in unbounded arithmetic: the words
  ``rounded up to the next multiple'' of the specification.
\<close>

definition round_up :: "nat \<Rightarrow> nat \<Rightarrow> nat" where
  "round_up n a = ((n + a - 1) div a) * a"

text \<open>
  The per-kind accounting in the words of the specification, in unbounded arithmetic:
  the bytes and the inodes one entry adds, given the block size and the inode size.
\<close>

definition spec_bytes :: "entry \<Rightarrow> nat \<Rightarrow> nat \<Rightarrow> nat" where
  "spec_bytes x blockSize inodeSize =
     (case x of
        RegFile _ fileSize \<Rightarrow> inodeSize + blockSize + round_up (unat fileSize) blockSize
      | Dir _ \<Rightarrow> inodeSize + 3 * blockSize
      | Symlink _ target \<Rightarrow>
          inodeSize + (if length target > 60 then round_up (length target) blockSize else 0)
      | Hardlink _ _ \<Rightarrow> blockSize
      | CharDevice _ _ _ \<Rightarrow> inodeSize
      | BlockDevice _ _ _ \<Rightarrow> inodeSize
      | FIFOPipe _ \<Rightarrow> inodeSize
      | Socket _ \<Rightarrow> inodeSize
      | ExAttr _ _ _ _ \<Rightarrow> 0)"

definition spec_inodes :: "entry \<Rightarrow> nat" where
  "spec_inodes x = (case x of Hardlink _ _ \<Rightarrow> 0 | ExAttr _ _ _ _ \<Rightarrow> 0 | _ \<Rightarrow> 1)"

section \<open>Auxiliary facts\<close>

subsection \<open>\<open>alignN\<close> computes the next multiple\<close>

lemma round_up_cases:
  assumes "0 < a"
  shows "round_up n a = (if n mod a = 0 then n else n + a - n mod a)"
proof -
  define q r where "q = n div a" and "r = n mod a"
  have n: "n = r + a * q" by (simp add: q_def r_def)
  have r: "r < a" using assms by (simp add: r_def)
  have goal: "((n + a - 1) div a) * a = (if r = 0 then n else n + a - r)"
  proof (cases "r = 0")
    case True
    have "(n + a - 1) div a = q"
    proof (rule div_nat_eqI)
      show "a * q \<le> n + a - 1" using n True assms by simp
      show "n + a - 1 < a * Suc q" using n True assms by simp
    qed
    then show ?thesis using True n by simp
  next
    case False
    have "(n + a - 1) div a = Suc q"
    proof (rule div_nat_eqI)
      show "a * Suc q \<le> n + a - 1" using n False by simp
      show "n + a - 1 < a * Suc (Suc q)" using n r by simp
    qed
    then show ?thesis using False n by simp
  qed
  then show ?thesis by (simp only: round_up_def r_def)
qed

lemma round_up_ge: "0 < a \<Longrightarrow> n \<le> round_up n a"
proof -
  assume a: "0 < a"
  have "n mod a < a" using a by simp
  then have "n \<le> n + a - n mod a" by linarith
  then show ?thesis using a by (simp add: round_up_cases)
qed

lemma round_up_dvd: "a dvd round_up n a"
  by (simp add: round_up_def)

lemma round_up_bound:
  assumes "0 < a"
  shows "round_up n a \<le> max (2 * n) a"
proof (cases "n mod a = 0")
  case True
  then show ?thesis using assms by (simp add: round_up_cases)
next
  case False
  show ?thesis
  proof (cases "n < a")
    case True
    then show ?thesis using assms False by (simp add: round_up_cases)
  next
    case False
    then have "n + a - n mod a \<le> 2 * n" by simp
    then show ?thesis using assms \<open>n mod a \<noteq> 0\<close> by (simp add: round_up_cases)
  qed
qed

lemma alignN_round_up:
  assumes "a \<noteq> 0"
  shows "alignN n a = Inr (of_nat (round_up (unat n) (unat a)))"
proof -
  have pos: "0 < unat a" using assms by (simp add: unat_gt_0)
  have m: "unat (n mod a) = unat n mod unat a" by (simp add: unat_mod)
  have z: "(n mod a = 0) = (unat n mod unat a = 0)"
    using m by (metis unat_eq_zero)
  have le: "unat n mod unat a \<le> unat n + unat a" 
  proof -
    have "unat n mod unat a \<le> unat n" by simp
    then show ?thesis by linarith
  qed
  have "n + a - n mod a = of_nat (unat n + unat a) - of_nat (unat n mod unat a)"
    by (simp only: word_arith_nat_add [of n a] word_arith_nat_mod [of n a])
  also have "\<dots> = of_nat (unat n + unat a - unat n mod unat a)"
    by (rule of_nat_diff [symmetric, OF le])
  finally have "n + a - n mod a = of_nat (unat n + unat a - unat n mod unat a)" .
  then show ?thesis using assms z pos by (simp add: alignN_def round_up_cases)
qed

lemma alignN_Inr: "a \<noteq> 0 \<Longrightarrow> \<exists>r. alignN n a = Inr r"
  by (simp add: alignN_def)

subsection \<open>Sums of words without wrap-around\<close>

lemma unat_add_of_nat:
  fixes a :: uint64
  assumes "unat a + n < 2 ^ 64"
  shows "unat (a + of_nat n) = unat a + n"
proof -
  have "n < 2 ^ 64" using assms by simp
  then have "unat (of_nat n :: uint64) = n" by (simp add: unat_of_nat)
  then show ?thesis using assms by (simp add: unat_word_ariths)
qed

lemma le_add_of_nat:
  fixes a :: uint64
  assumes "unat a + n < 2 ^ 64"
  shows "a \<le> a + of_nat n"
  using unat_add_of_nat [OF assms] by (simp add: word_le_nat_alt)

lemma unat_two_power: "k < 64 \<Longrightarrow> unat (2 ^ k :: uint64) = 2 ^ k"
proof -
  assume k: "k < 64"
  have lt: "(2 :: nat) ^ k < 2 ^ LENGTH(64)"
    by (rule power_strict_increasing) (use k in simp_all)
  have "unat (of_nat (2 ^ k) :: uint64) = 2 ^ k mod 2 ^ LENGTH(64)"
    by (rule unat_of_nat)
  also have "\<dots> = 2 ^ k" by (rule mod_less [OF lt])
  finally show ?thesis by simp
qed

lemma unat_of_nat_dvd:
  assumes "a dvd n" and "a dvd 2 ^ 64"
  shows "a dvd unat (of_nat n :: uint64)"
  using assms by (simp add: unat_of_nat dvd_mod)

subsection \<open>What each call returns\<close>

lemma addInode_fields [simp]:
  "numInodes (addInode e) = numInodes e + 1"
  "totalSize (addInode e) = totalSize e + InodeSize e"
  "BlockSize (addInode e) = BlockSize e"
  "InodeSize (addInode e) = InodeSize e"
  by (simp_all add: addInode_def)

lemma CalcRegFileSize_eq:
  assumes "BlockSize e \<noteq> 0"
  shows "CalcRegFileSize fileName fileSize e =
     Inr (e\<lparr>numInodes := numInodes e + 1,
            totalSize := totalSize e +
              of_nat (unat (InodeSize e) + unat (BlockSize e)
                      + round_up (unat fileSize) (unat (BlockSize e)))\<rparr>)"
  using assms by (simp add: CalcRegFileSize_def alignN_round_up addInode_def)

lemma CalcSymlinkSize_long_eq:
  assumes "BlockSize e \<noteq> 0" and "60 < length dstName" and "length dstName < 2 ^ 64"
  shows "CalcSymlinkSize srcName dstName e =
     Inr (e\<lparr>numInodes := numInodes e + 1,
            totalSize := totalSize e +
              of_nat (unat (InodeSize e) + round_up (length dstName) (unat (BlockSize e)))\<rparr>)"
proof -
  have "unat (of_nat (length dstName) :: uint64) = length dstName"
    using assms(3) by (simp add: unat_of_nat)
  then show ?thesis
    using assms by (simp add: CalcSymlinkSize_def alignN_round_up addInode_def)
qed

lemma CalcSymlinkSize_short_eq:
  assumes "length dstName \<le> 60"
  shows "CalcSymlinkSize srcName dstName e =
     Inr (e\<lparr>numInodes := numInodes e + 1, totalSize := totalSize e + InodeSize e\<rparr>)"
  using assms by (simp add: CalcSymlinkSize_def addInode_def)

lemma calc_exact:
  assumes "BlockSize e \<noteq> 0 \<or> (\<exists>e'. calc x e = Inr e')"
    and "unat (totalSize e) + spec_bytes x (unat (BlockSize e)) (unat (InodeSize e)) < 2 ^ 64"
  shows "calc x e =
     Inr (e\<lparr>numInodes := numInodes e + of_nat (spec_inodes x),
            totalSize := totalSize e
              + of_nat (spec_bytes x (unat (BlockSize e)) (unat (InodeSize e)))\<rparr>)"
proof -
  have nz: "BlockSize e \<noteq> 0" if "calc x e = Inr e'" and "x = RegFile n s" for e' n s
    using that by (auto simp: CalcRegFileSize_def alignN_def split: if_splits)
  have nz': "BlockSize e \<noteq> 0"
    if "calc x e = Inr e'" and "x = Symlink n t" and "60 < length t" for e' n t
    using that by (auto simp: CalcSymlinkSize_def alignN_def split: if_splits)
  show ?thesis
  proof (cases x)
    case (RegFile n s)
    then have "BlockSize e \<noteq> 0" using assms(1) nz by blast
    then show ?thesis
      using RegFile by (simp add: CalcRegFileSize_eq spec_bytes_def spec_inodes_def)
  next
    case (Symlink n t)
    show ?thesis
    proof (cases "60 < length t")
      case True
      then have b: "BlockSize e \<noteq> 0" using assms(1) nz' Symlink by blast
      then have "0 < unat (BlockSize e)" by (simp add: unat_gt_0)
      then have "length t \<le> round_up (length t) (unat (BlockSize e))" by (rule round_up_ge)
      then have "length t < 2 ^ 64"
        using assms(2) Symlink True by (simp add: spec_bytes_def)
      then show ?thesis
        using Symlink True b by (simp add: CalcSymlinkSize_long_eq spec_bytes_def spec_inodes_def)
    next
      case False
      then show ?thesis
        using Symlink by (simp add: CalcSymlinkSize_short_eq spec_bytes_def spec_inodes_def)
    qed
  qed (simp_all add: CalcDirSize_def CalcHardlinkSize_def CalcCharDeviceSize_def
        CalcBlockDeviceSize_def CalcFIFOPipeSize_def CalcSocketSize_def CalcAddExAttrSize_def
        addInode_def spec_bytes_def spec_inodes_def)
qed

lemma calc_ok:
  assumes "BlockSize e \<noteq> 0"
  shows "\<exists>e'. calc x e = Inr e' \<and> BlockSize e' = BlockSize e \<and> InodeSize e' = InodeSize e"
proof (cases x)
  case (RegFile n s)
  obtain r where "alignN s (BlockSize e) = Inr r" using alignN_Inr [OF assms] by blast
  then show ?thesis using RegFile by (simp add: CalcRegFileSize_def addInode_def Let_def)
next
  case (Symlink n t)
  obtain r where "alignN (of_nat (length t)) (BlockSize e) = Inr r"
    using alignN_Inr [OF assms] by blast
  then show ?thesis using Symlink by (simp add: CalcSymlinkSize_def addInode_def Let_def)
qed (simp_all add: CalcDirSize_def CalcHardlinkSize_def CalcCharDeviceSize_def
      CalcBlockDeviceSize_def CalcFIFOPipeSize_def CalcSocketSize_def CalcAddExAttrSize_def
      addInode_def)

lemma calc_all_ok:
  "BlockSize e \<noteq> 0 \<Longrightarrow>
   \<exists>e'. calc_all xs e = Inr e' \<and> BlockSize e' = BlockSize e \<and> InodeSize e' = InodeSize e"
proof (induction xs arbitrary: e)
  case Nil
  then show ?case by simp
next
  case (Cons x xs)
  obtain e1 where e1: "calc x e = Inr e1" "BlockSize e1 = BlockSize e" "InodeSize e1 = InodeSize e"
    using calc_ok [OF Cons.prems] by blast
  then have "BlockSize e1 \<noteq> 0" using Cons.prems by simp
  from Cons.IH [OF this] show ?case using e1 by simp
qed

lemma FinalizeSizeContext_eq:
  assumes "64 * BlockSize e \<noteq> 0"
  shows "FinalizeSizeContext ovf e =
     Inr (e\<lparr>totalSize := of_nat (round_up (unat (scale_1_50 ovf (totalSize e)))
                                     (unat (64 * BlockSize e))),
            numInodes := scale_1_50 ovf (numInodes e)\<rparr>)"
proof -
  let ?t = "scale_1_50 ovf (totalSize e)"
  let ?a = "64 * BlockSize e"
  have pos: "0 < unat ?a" using assms by (simp add: unat_gt_0)
  have al: "alignN ?t ?a = Inr (of_nat (round_up (unat ?t) (unat ?a)))"
    by (rule alignN_round_up [OF assms])
  have "of_nat (round_up (unat ?t) (unat ?a)) = ?t" if "?t mod ?a = 0"
  proof -
    have "unat ?t mod unat ?a = 0" using that by (simp flip: unat_mod)
    then show ?thesis using pos by (simp add: round_up_cases)
  qed
  then show ?thesis
    using assms al by (simp add: FinalizeSizeContext_def Let_def)
qed

subsection \<open>The scaling by 1.50\<close>

text \<open>
  Below \<open>2 ^ 53\<close> nothing is rounded: the conversion to \<open>float64\<close> and the product
  are exact, and the conversion back discards the half.
\<close>

lemma scale_1_50_exact:
  assumes "3 * unat x < 2 ^ 53"
  shows "unat (scale_1_50 ovf x) = 3 * unat x div 2"
proof -
  have x: "unat x < 2 ^ 53" using assms by simp
  have f: "float64_of_uint64 x = unat x"
    using x by (simp add: float64_of_uint64_def round53_def)
  have m: "mul_1_50 (unat x) = 3 * unat x"
    using assms by (simp add: mul_1_50_def round53_def)
  have lt: "3 * unat x div 2 < 2 ^ 64" using assms by simp
  then have "uint64_of_float64 ovf (3 * unat x) = of_nat (3 * unat x div 2)"
    by (simp add: uint64_of_float64_def)
  then have "scale_1_50 ovf x = of_nat (3 * unat x div 2)"
    by (simp add: scale_1_50_def f m)
  then show ?thesis using lt by (simp add: unat_of_nat)
qed

text \<open>Rules that evaluate the scaling at a numeral.\<close>

lemma bitlen_0: "bitlen 0 = 0"
  by (simp add: bitlen.simps)

lemma bitlen_1: "bitlen (Suc 0) = Suc 0"
  by (subst bitlen.simps) (simp add: bitlen_0)

lemma bitlen_numeral: "bitlen (numeral n) = Suc (bitlen (numeral n div 2))"
  by (subst bitlen.simps) simp

lemmas float64_eval =
  scale_1_50_def uint64_of_float64_def mul_1_50_def float64_of_uint64_def round53_def
  bitlen_0 bitlen_1 bitlen_numeral Let_def

text \<open>
  Above \<open>2 ^ 53\<close> the scaling rounds: \<open>2 ^ 53 + 1\<close> is not a \<open>float64\<close>, and the
  result is one less than \<open>1.5 * (2 ^ 53 + 1)\<close> with its fraction discarded.
\<close>

lemma scale_1_50_rounds:
  "scale_1_50 ovf (2 ^ 53 + 1) = 3 * 2 ^ 52"
  "3 * (2 ^ 53 + 1) div 2 = (3 * 2 ^ 52 + 1 :: nat)"
  by (simp_all add: float64_eval)

subsection \<open>The two formatting methods\<close>

text \<open>
  Whatever the tool fails with, \<open>MakeFileSystem\<close> sleeps 100 hours before it returns
  the error; \<open>MakeBasicFileSystem\<close> returns the result of the tool at once.
\<close>

lemma MakeFileSystem_failure:
  assumes "MakeFileSystem run e fileName = (effects, Some x)"
  shows "last effects = Sleep (100 * Hour)"
  using assms by (auto simp: MakeFileSystem_def Let_def split: option.splits)

lemma MakeFileSystem_success:
  assumes "MakeFileSystem run e fileName = (effects, None)"
  shows "\<exists>cmd. effects = [Exec cmd]"
  using assms by (auto simp: MakeFileSystem_def Let_def split: option.splits)

lemma MakeBasicFileSystem_no_sleep:
  "fst (MakeBasicFileSystem run e fileName) = [Exec [''mkfs.ext4'', ''-F'', fileName]]"
  by (simp add: MakeBasicFileSystem_def Let_def)

section \<open>The claims\<close>

subsection \<open>Finalisation\<close>

text \<open>
  C1 (as amended). When the block size is a power of two \<open>2 ^ k\<close> with \<open>k \<le> 57\<close>, so
  that 64 times the block size is a non-zero divisor of \<open>2 ^ 64\<close>, then for every
  sequence of \<open>Calc...Size\<close> calls after \<open>InitSizeContext\<close> every call returns,
  \<open>FinalizeSizeContext\<close> returns, and the \<open>TotalSize\<close> that \<open>GetSizeInfo\<close> reports is
  a multiple of 64 times the block size, both as the \<open>uint64\<close> remainder of the code
  and on natural numbers. This holds for every result of the out-of-range conversion.
\<close>

theorem FinalizeSizeContext_aligned:
  assumes "BlockSize e0 = 2 ^ k" and "k \<le> 57"
  shows "\<exists>e1 e2 e3. InitSizeContext e0 = Inr e1 \<and> calc_all xs e1 = Inr e2
     \<and> FinalizeSizeContext ovf e2 = Inr e3
     \<and> BlockSize e3 = BlockSize e0
     \<and> TotalSize (GetSizeInfo e3) mod (64 * BlockSize e3) = 0
     \<and> unat (TotalSize (GetSizeInfo e3)) mod (64 * unat (BlockSize e0)) = 0"
proof -
  have k: "k < 64" "k + 6 < 64" using assms(2) by simp_all
  have a: "64 * BlockSize e0 = 2 ^ (k + 6)" using assms(1) by (simp add: power_add)
  have ua: "unat (64 * BlockSize e0) = 2 ^ (k + 6)" unfolding a by (rule unat_two_power [OF k(2)])
  have ub: "unat (BlockSize e0) = 2 ^ k" unfolding assms(1) by (rule unat_two_power [OF k(1)])
  have a0: "64 * BlockSize e0 \<noteq> 0" using ua by (metis unat_0 power_not_zero zero_neq_numeral)
  have b0: "BlockSize e0 \<noteq> 0" using a0 by auto
  have dv: "(2 :: nat) ^ (k + 6) dvd 2 ^ 64"
    by (rule le_imp_power_dvd) (use k(2) in simp)
  obtain e1 where e1: "InitSizeContext e0 = Inr e1" "BlockSize e1 = BlockSize e0"
    by (simp add: InitSizeContext_def)
  obtain e2 where e2: "calc_all xs e1 = Inr e2" "BlockSize e2 = BlockSize e0"
    using calc_all_ok [of e1 xs] e1 b0 by auto
  define e3 where "e3 = e2\<lparr>totalSize := of_nat (round_up (unat (scale_1_50 ovf (totalSize e2)))
                                     (unat (64 * BlockSize e2))),
            numInodes := scale_1_50 ovf (numInodes e2)\<rparr>"
  have e3: "FinalizeSizeContext ovf e2 = Inr e3"
    unfolding e3_def using a0 e2(2) by (simp add: FinalizeSizeContext_eq)
  have "2 ^ (k + 6) dvd unat (totalSize e3)"
    unfolding e3_def using dv by (simp add: e2(2) ua unat_of_nat_dvd round_up_dvd)
  then have m: "unat (totalSize e3) mod 2 ^ (k + 6) = 0" by simp
  have b3: "BlockSize e3 = BlockSize e0" by (simp add: e3_def e2(2))
  have "unat (totalSize e3 mod (64 * BlockSize e3)) = 0"
    using m by (simp add: unat_mod b3 ua)
  then have w: "totalSize e3 mod (64 * BlockSize e3) = 0" by (simp add: unat_eq_zero)
  have n: "unat (totalSize e3) mod (64 * unat (BlockSize e0)) = 0"
    using m by (simp add: ub power_add mult.commute)
  show ?thesis
    using e1 e2 e3 b3 w n by (auto simp: GetSizeInfo_def)
qed

text \<open>
  The theorem at block size \<open>4096 = 2 ^ 12\<close>, inode size 256, for a directory, a regular
  file and a hard link.
\<close>

theorem FinalizeSizeContext_aligned_witness:
  "BlockSize \<lparr>BlockSize = 4096, InodeSize = 256, totalSize = 0, numInodes = 0\<rparr> = 2 ^ 12
   \<and> (12 :: nat) \<le> 57
   \<and> (\<exists>e1 e2 e3.
         InitSizeContext \<lparr>BlockSize = 4096, InodeSize = 256, totalSize = 0, numInodes = 0\<rparr> = Inr e1
       \<and> calc_all [Dir ''etc'', RegFile ''etc/passwd'' 10000, Hardlink ''etc/pw'' ''etc/passwd''] e1
           = Inr e2
       \<and> FinalizeSizeContext ovf_saturate e2 = Inr e3
       \<and> unat (TotalSize (GetSizeInfo e3)) mod (64 * 4096) = 0)"
proof -
  let ?e0 = "\<lparr>BlockSize = 4096, InodeSize = 256, totalSize = 0, numInodes = 0\<rparr>"
  have h1: "BlockSize ?e0 = 2 ^ 12" by simp
  have h2: "(12 :: nat) \<le> 57" by simp
  let ?xs = "[Dir ''etc'', RegFile ''etc/passwd'' 10000, Hardlink ''etc/pw'' ''etc/passwd'']"
  obtain e1 e2 e3 where r: "InitSizeContext ?e0 = Inr e1" "calc_all ?xs e1 = Inr e2"
      "FinalizeSizeContext ovf_saturate e2 = Inr e3"
      "unat (TotalSize (GetSizeInfo e3)) mod (64 * unat (BlockSize ?e0)) = 0"
    using FinalizeSizeContext_aligned [OF h1 h2, of ?xs ovf_saturate] by iprover
  have "unat (TotalSize (GetSizeInfo e3)) mod (64 * 4096) = 0" using r(4) by simp
  with r(1-3) have "\<exists>e1 e2 e3. InitSizeContext ?e0 = Inr e1 \<and> calc_all ?xs e1 = Inr e2
       \<and> FinalizeSizeContext ovf_saturate e2 = Inr e3
       \<and> unat (TotalSize (GetSizeInfo e3)) mod (64 * 4096) = 0"
    by iprover
  with h1 h2 show ?thesis by (intro conjI)
qed

text \<open>
  C1 as stated, for every block size, fails in two ways. With block size \<open>3 * 2 ^ 56\<close>
  and one regular file of \<open>2 ^ 63\<close> bytes the scaled size is \<open>405 * 2 ^ 55\<close>; the next
  multiple of \<open>64 * BlockSize = 3 * 2 ^ 62\<close> is \<open>3 * 2 ^ 63\<close>, which wraps to \<open>2 ^ 63\<close>,
  not a multiple. With block size \<open>2 ^ 58\<close> the product \<open>64 * BlockSize\<close> wraps to zero
  and the guard of the alignment panics.
\<close>

theorem FinalizeSizeContext_misaligned:
  "InitSizeContext \<lparr>BlockSize = 3 * 2 ^ 56, InodeSize = 256, totalSize = 0, numInodes = 0\<rparr>
     = Inr \<lparr>BlockSize = 3 * 2 ^ 56, InodeSize = 256, totalSize = 3 * 2 ^ 56, numInodes = 11\<rparr>
   \<and> calc_all [RegFile ''big'' (2 ^ 63)]
        \<lparr>BlockSize = 3 * 2 ^ 56, InodeSize = 256, totalSize = 3 * 2 ^ 56, numInodes = 11\<rparr>
     = Inr \<lparr>BlockSize = 3 * 2 ^ 56, InodeSize = 256, totalSize = 135 * 2 ^ 56 + 256, numInodes = 12\<rparr>
   \<and> FinalizeSizeContext ovf_saturate
        \<lparr>BlockSize = 3 * 2 ^ 56, InodeSize = 256, totalSize = 135 * 2 ^ 56 + 256, numInodes = 12\<rparr>
     = Inr \<lparr>BlockSize = 3 * 2 ^ 56, InodeSize = 256, totalSize = 2 ^ 63, numInodes = 18\<rparr>
   \<and> (2 ^ 63 :: uint64) mod (64 * (3 * 2 ^ 56)) \<noteq> 0
   \<and> (2 ^ 63 :: nat) mod (64 * (3 * 2 ^ 56)) \<noteq> 0
   \<and> InitSizeContext \<lparr>BlockSize = 2 ^ 58, InodeSize = 256, totalSize = 0, numInodes = 0\<rparr>
     = Inr \<lparr>BlockSize = 2 ^ 58, InodeSize = 256, totalSize = 2 ^ 58, numInodes = 11\<rparr>
   \<and> FinalizeSizeContext ovf_saturate
        \<lparr>BlockSize = 2 ^ 58, InodeSize = 256, totalSize = 2 ^ 58, numInodes = 11\<rparr>
     = Inl PanicDivideByZero"
proof -
  have s1: "scale_1_50 ovf_saturate (135 * 2 ^ 56 + 256) = 405 * 2 ^ 55"
    by (simp add: float64_eval)
  have s2: "scale_1_50 ovf_saturate 12 = 18"
    by (simp add: float64_eval)
  have i1: "InitSizeContext \<lparr>BlockSize = 3 * 2 ^ 56, InodeSize = 256, totalSize = 0, numInodes = 0\<rparr>
     = Inr \<lparr>BlockSize = 3 * 2 ^ 56, InodeSize = 256, totalSize = 3 * 2 ^ 56, numInodes = 11\<rparr>"
    by (simp add: InitSizeContext_def maxU64_def)
  have c1: "calc_all [RegFile ''big'' (2 ^ 63)]
        \<lparr>BlockSize = 3 * 2 ^ 56, InodeSize = 256, totalSize = 3 * 2 ^ 56, numInodes = 11\<rparr>
     = Inr \<lparr>BlockSize = 3 * 2 ^ 56, InodeSize = 256, totalSize = 135 * 2 ^ 56 + 256, numInodes = 12\<rparr>"
    by (simp add: CalcRegFileSize_def addInode_def alignN_def)
  have f1: "FinalizeSizeContext ovf_saturate
        \<lparr>BlockSize = 3 * 2 ^ 56, InodeSize = 256, totalSize = 135 * 2 ^ 56 + 256, numInodes = 12\<rparr>
     = Inr \<lparr>BlockSize = 3 * 2 ^ 56, InodeSize = 256, totalSize = 2 ^ 63, numInodes = 18\<rparr>"
    using s1 s2 by (simp add: FinalizeSizeContext_def alignN_def)
  have m1: "(2 ^ 63 :: uint64) mod (64 * (3 * 2 ^ 56)) \<noteq> 0" by simp
  have m2: "(2 ^ 63 :: nat) mod (64 * (3 * 2 ^ 56)) \<noteq> 0" by simp
  have i2: "InitSizeContext \<lparr>BlockSize = 2 ^ 58, InodeSize = 256, totalSize = 0, numInodes = 0\<rparr>
     = Inr \<lparr>BlockSize = 2 ^ 58, InodeSize = 256, totalSize = 2 ^ 58, numInodes = 11\<rparr>"
    by (simp add: InitSizeContext_def maxU64_def)
  have f2: "FinalizeSizeContext ovf_saturate
        \<lparr>BlockSize = 2 ^ 58, InodeSize = 256, totalSize = 2 ^ 58, numInodes = 11\<rparr>
     = Inl PanicDivideByZero"
    by (simp add: FinalizeSizeContext_def)
  show ?thesis
    by (intro conjI i1 c1 f1 m1 m2 i2 f2)
qed

text \<open>
  C2 (as amended). For a total size \<open>s\<close> and an inode count \<open>n\<close> with \<open>3 * s < 2 ^ 53\<close>
  and \<open>3 * n < 2 ^ 53\<close>, and a block size between 1 and \<open>2 ^ 58 - 1\<close>,
  \<open>FinalizeSizeContext\<close> returns; the inode count becomes \<open>1.5 * n\<close> with the fraction
  discarded, and the total size becomes \<open>1.5 * s\<close> with the fraction discarded and then
  rounded up to the next multiple of 64 times the block size. Block size and inode size
  stay as they were.
\<close>

theorem FinalizeSizeContext_scale_then_align:
  assumes "3 * unat (totalSize e) < 2 ^ 53" and "3 * unat (numInodes e) < 2 ^ 53"
    and "BlockSize e \<noteq> 0" and "unat (BlockSize e) < 2 ^ 58"
  shows "\<exists>e'. FinalizeSizeContext ovf e = Inr e'
     \<and> unat (numInodes e') = 3 * unat (numInodes e) div 2
     \<and> unat (totalSize e') = round_up (3 * unat (totalSize e) div 2) (64 * unat (BlockSize e))
     \<and> BlockSize e' = BlockSize e \<and> InodeSize e' = InodeSize e"
proof -
  let ?a = "64 * BlockSize e"
  let ?s = "3 * unat (totalSize e) div 2"
  have "unat (64 :: uint64) * unat (BlockSize e) < 2 ^ LENGTH(64)"
    using assms(4) by simp
  then have "unat ?a = unat (64 :: uint64) * unat (BlockSize e)"
    by (simp only: unat_mult_lem [THEN iffD1])
  then have ua: "unat ?a = 64 * unat (BlockSize e)" by simp
  have pos: "0 < unat (BlockSize e)" using assms(3) by (simp add: unat_gt_0)
  then have a0: "?a \<noteq> 0" using ua by (metis mult_is_0 not_less_zero unat_0 zero_neq_numeral less_numeral_extra(3))
  have run: "FinalizeSizeContext ovf e =
     Inr (e\<lparr>totalSize := of_nat (round_up (unat (scale_1_50 ovf (totalSize e))) (unat ?a)),
            numInodes := scale_1_50 ovf (numInodes e)\<rparr>)"
    by (rule FinalizeSizeContext_eq [OF a0])
  have st: "unat (scale_1_50 ovf (totalSize e)) = ?s"
    by (rule scale_1_50_exact [OF assms(1)])
  have sn: "unat (scale_1_50 ovf (numInodes e)) = 3 * unat (numInodes e) div 2"
    by (rule scale_1_50_exact [OF assms(2)])
  have "round_up ?s (64 * unat (BlockSize e)) \<le> max (2 * ?s) (64 * unat (BlockSize e))"
    by (rule round_up_bound) (use pos in simp)
  also have "\<dots> < 2 ^ 64" using assms(1,4) by simp
  finally have "unat (of_nat (round_up ?s (64 * unat (BlockSize e))) :: uint64)
      = round_up ?s (64 * unat (BlockSize e))"
    by (simp add: unat_of_nat)
  then show ?thesis
    by (simp add: run st sn ua)
qed

text \<open>The theorem at 21504 bytes and 12 inodes, block size 4096: 262144 bytes, 18 inodes.\<close>

theorem FinalizeSizeContext_scale_then_align_witness:
  "3 * unat (totalSize \<lparr>BlockSize = 4096, InodeSize = 256, totalSize = 21504, numInodes = 12\<rparr>) < 2 ^ 53
   \<and> 3 * unat (numInodes \<lparr>BlockSize = 4096, InodeSize = 256, totalSize = 21504, numInodes = 12\<rparr>) < 2 ^ 53
   \<and> BlockSize \<lparr>BlockSize = 4096, InodeSize = 256, totalSize = 21504, numInodes = 12\<rparr> \<noteq> 0
   \<and> unat (BlockSize \<lparr>BlockSize = 4096, InodeSize = 256, totalSize = 21504, numInodes = 12\<rparr>) < 2 ^ 58
   \<and> (\<exists>e'. FinalizeSizeContext ovf_saturate
               \<lparr>BlockSize = 4096, InodeSize = 256, totalSize = 21504, numInodes = 12\<rparr> = Inr e'
          \<and> unat (numInodes e') = 18 \<and> unat (totalSize e') = 262144)"
proof -
  let ?e = "\<lparr>BlockSize = 4096, InodeSize = 256, totalSize = 21504, numInodes = 12\<rparr>"
  have h1: "3 * unat (totalSize ?e) < 2 ^ 53" by simp
  have h2: "3 * unat (numInodes ?e) < 2 ^ 53" by simp
  have h3: "BlockSize ?e \<noteq> 0" by simp
  have h4: "unat (BlockSize ?e) < 2 ^ 58" by simp
  obtain e' where r: "FinalizeSizeContext ovf_saturate ?e = Inr e'"
      "unat (numInodes e') = 3 * unat (numInodes ?e) div 2"
      "unat (totalSize e') = round_up (3 * unat (totalSize ?e) div 2) (64 * unat (BlockSize ?e))"
    using FinalizeSizeContext_scale_then_align [OF h1 h2 h3 h4, of ovf_saturate] by iprover
  have "unat (numInodes e') = 18" using r(2) by simp
  moreover have "unat (totalSize e') = 262144" using r(3) by (simp add: round_up_def)
  ultimately have "\<exists>e'. FinalizeSizeContext ovf_saturate ?e = Inr e'
          \<and> unat (numInodes e') = 18 \<and> unat (totalSize e') = 262144"
    using r(1) by iprover
  with h1 h2 h3 h4 show ?thesis by (intro conjI)
qed

text \<open>
  C2 as stated makes the inode count exactly \<open>1.5 * n\<close>. From the baseline state of
  11 inodes the code returns 16, and \<open>2 * 16\<close> is not \<open>3 * 11\<close>.
\<close>

theorem FinalizeSizeContext_truncates:
  "FinalizeSizeContext ovf_saturate
      \<lparr>BlockSize = 4096, InodeSize = 256, totalSize = 4864, numInodes = 11\<rparr>
     = Inr \<lparr>BlockSize = 4096, InodeSize = 256, totalSize = 262144, numInodes = 16\<rparr>
   \<and> 2 * unat (16 :: uint64) \<noteq> 3 * unat (11 :: uint64)"
proof -
  have s1: "scale_1_50 ovf_saturate 4864 = 7296" by (simp add: float64_eval)
  have s2: "scale_1_50 ovf_saturate 11 = 16" by (simp add: float64_eval)
  have "FinalizeSizeContext ovf_saturate
      \<lparr>BlockSize = 4096, InodeSize = 256, totalSize = 4864, numInodes = 11\<rparr>
     = Inr \<lparr>BlockSize = 4096, InodeSize = 256, totalSize = 262144, numInodes = 16\<rparr>"
    using s1 s2 by (simp add: FinalizeSizeContext_def alignN_def)
  moreover have "2 * unat (16 :: uint64) \<noteq> 3 * unat (11 :: uint64)" by simp
  ultimately show ?thesis by (intro conjI)
qed

subsection \<open>The state after \<open>InitSizeContext\<close>\<close>

text \<open>
  C3. Immediately after \<open>InitSizeContext\<close>, with no entry added, the inode count is 11
  and the total size is the maximum of \<open>2048 + 11 * InodeSize\<close> and \<open>BlockSize\<close>, for
  every block size and inode size. The sum is the \<open>uint64\<close> sum of the code; the last
  conjunct reads the same equation on natural numbers whenever that sum does not wrap.
\<close>

theorem InitSizeContext_baseline:
  "\<exists>e'. InitSizeContext e = Inr e'
     \<and> numInodes e' = 11
     \<and> totalSize e' = max (2048 + 11 * InodeSize e) (BlockSize e)
     \<and> BlockSize e' = BlockSize e \<and> InodeSize e' = InodeSize e
     \<and> (2048 + 11 * unat (InodeSize e) < 2 ^ 64 \<longrightarrow>
          unat (totalSize e') = max (2048 + 11 * unat (InodeSize e)) (unat (BlockSize e)))"
proof -
  have nat_form: "unat (max (2048 + 11 * InodeSize e) (BlockSize e))
      = max (2048 + 11 * unat (InodeSize e)) (unat (BlockSize e))"
    if "2048 + 11 * unat (InodeSize e) < 2 ^ 64"
  proof -
    have "unat (2048 + 11 * InodeSize e) = 2048 + 11 * unat (InodeSize e)"
      using that by (simp add: unat_word_ariths)
    then show ?thesis by (simp add: max_def word_le_nat_alt)
  qed
  have "maxU64 x y = max x y" for x y :: uint64
    by (auto simp: maxU64_def max_def)
  then show ?thesis using nat_form by (simp add: InitSizeContext_def)
qed

text \<open>The theorem at block size 4096 and inode size 256: 11 inodes and 4864 bytes.\<close>

theorem InitSizeContext_baseline_witness:
  "2048 + 11 * unat (256 :: uint64) < 2 ^ 64
   \<and> (\<exists>e'. InitSizeContext \<lparr>BlockSize = 4096, InodeSize = 256, totalSize = 0, numInodes = 0\<rparr> = Inr e'
          \<and> numInodes e' = 11 \<and> unat (totalSize e') = 4864)"
  using InitSizeContext_baseline [of "\<lparr>BlockSize = 4096, InodeSize = 256, totalSize = 0, numInodes = 0\<rparr>"]
  by auto

text \<open>
  C4 (as amended). \<open>InitSizeContext\<close> validates nothing: for every block size and
  inode size, zero included, it returns no error, and all it does is set the inode
  count to 11 and the total size to the baseline, the maximum of
  \<open>2048 + 11 * InodeSize\<close> and \<open>BlockSize\<close> in \<open>uint64\<close> arithmetic. Block size and
  inode size are returned as they were given.
\<close>

theorem InitSizeContext_never_fails:
  "InitSizeContext e
     = Inr (e\<lparr>numInodes := 11, totalSize := max (2048 + 11 * InodeSize e) (BlockSize e)\<rparr>)
   \<and> (\<exists>e'. InitSizeContext e = Inr e'
          \<and> numInodes e' = 11
          \<and> totalSize e' = max (2048 + 11 * InodeSize e) (BlockSize e)
          \<and> BlockSize e' = BlockSize e \<and> InodeSize e' = InodeSize e)"
proof -
  have "maxU64 x y = max x y" for x y :: uint64
    by (auto simp: maxU64_def max_def)
  then show ?thesis by (simp add: InitSizeContext_def)
qed

text \<open>
  C4 as stated asks for an error when either parameter is zero. With both zero the call
  succeeds and leaves the baseline state.
\<close>

theorem InitSizeContext_accepts_zero:
  "InitSizeContext \<lparr>BlockSize = 0, InodeSize = 0, totalSize = 0, numInodes = 0\<rparr>
     = Inr \<lparr>BlockSize = 0, InodeSize = 0, totalSize = 2048, numInodes = 11\<rparr>"
  by (simp add: InitSizeContext_def maxU64_def)

subsection \<open>Formatting failure\<close>

text \<open>
  C5. The claim is that a failing formatting tool makes \<open>MakeFileSystem\<close> return the
  failure without hanging. The code does return the error of the tool, but only after
  \<open>time.Sleep(100 * time.Hour)\<close>: with a tool that exits with status 1 the effects are
  the command and then a sleep of 360000000000000 nanoseconds.
\<close>

theorem MakeFileSystem_failure_sleeps:
  "MakeFileSystem mkfs_fails \<lparr>BlockSize = 4096, InodeSize = 256, totalSize = 262144, numInodes = 16\<rparr> ''img''
     = ([Exec [''mkfs.ext4'', ''-O'', ''^has_journal,^resize_inode'',
               ''-N'', ''16'', ''-b'', ''4096'', ''-I'', ''256'', ''-F'', ''img''],
         Sleep 360000000000000],
        Some (ExitError 1))"
  by (simp add: MakeFileSystem_def mkfs_fails_def FormatUint10.simps Hour_def)

subsection \<open>Regular files\<close>

text \<open>
  C6. With a non-zero block size, \<open>CalcRegFileSize\<close> returns; it adds one inode, and it
  adds to the total size the inode size, one block size, and the file size rounded up
  to the next multiple of the block size (\<open>round_up n a\<close> is \<open>ceil (n / a) * a\<close>). The
  sum is the \<open>uint64\<close> sum of the code, and the sum of natural numbers whenever that
  does not wrap. With block size 4096 and inode size 256 a file of 10000 bytes adds
  16640 bytes.
\<close>

theorem CalcRegFileSize_delta:
  assumes "BlockSize e \<noteq> 0"
  shows "\<exists>e'. CalcRegFileSize fileName fileSize e = Inr e'
     \<and> numInodes e' = numInodes e + 1
     \<and> totalSize e' = totalSize e
          + (InodeSize e + BlockSize e + of_nat (round_up (unat fileSize) (unat (BlockSize e))))
     \<and> BlockSize e' = BlockSize e \<and> InodeSize e' = InodeSize e
     \<and> (BlockSize e = 4096 \<and> InodeSize e = 256 \<and> fileSize = 10000 \<longrightarrow>
          totalSize e' = totalSize e + 16640)
     \<and> (unat (totalSize e) + (unat (InodeSize e) + unat (BlockSize e)
            + round_up (unat fileSize) (unat (BlockSize e))) < 2 ^ 64 \<longrightarrow>
          unat (totalSize e') = unat (totalSize e) + (unat (InodeSize e) + unat (BlockSize e)
            + round_up (unat fileSize) (unat (BlockSize e))))"
proof -
  let ?d = "unat (InodeSize e) + unat (BlockSize e) + round_up (unat fileSize) (unat (BlockSize e))"
  let ?e' = "e\<lparr>numInodes := numInodes e + 1, totalSize := totalSize e + of_nat ?d\<rparr>"
  have run: "CalcRegFileSize fileName fileSize e = Inr ?e'"
    by (rule CalcRegFileSize_eq [OF assms])
  have sum: "totalSize ?e' = totalSize e
      + (InodeSize e + BlockSize e + of_nat (round_up (unat fileSize) (unat (BlockSize e))))"
    by simp
  have example: "totalSize ?e' = totalSize e + 16640"
    if "BlockSize e = 4096" "InodeSize e = 256" "fileSize = 10000"
    using that by (simp add: round_up_def)
  have exact: "unat (totalSize ?e') = unat (totalSize e) + ?d"
    if "unat (totalSize e) + ?d < 2 ^ 64"
    using unat_add_of_nat [OF that] by simp
  show ?thesis
    using run sum example exact by (intro exI [of _ ?e']) simp
qed

text \<open>The theorem on the baseline state of block size 4096 and inode size 256.\<close>

theorem CalcRegFileSize_delta_witness:
  "BlockSize \<lparr>BlockSize = 4096, InodeSize = 256, totalSize = 4864, numInodes = 11\<rparr> \<noteq> 0
   \<and> unat (4864 :: uint64) + (unat (256 :: uint64) + unat (4096 :: uint64)
         + round_up (unat (10000 :: uint64)) (unat (4096 :: uint64))) < 2 ^ 64
   \<and> (\<exists>e'. CalcRegFileSize ''etc/passwd'' 10000
               \<lparr>BlockSize = 4096, InodeSize = 256, totalSize = 4864, numInodes = 11\<rparr> = Inr e'
          \<and> numInodes e' = 12 \<and> totalSize e' = 4864 + 16640 \<and> unat (totalSize e') = 21504)"
proof -
  let ?e = "\<lparr>BlockSize = 4096, InodeSize = 256, totalSize = 4864, numInodes = 11\<rparr>"
  have h: "BlockSize ?e \<noteq> 0" by simp
  have r: "round_up (unat (10000 :: uint64)) (unat (4096 :: uint64)) = 12288"
    by (simp add: round_up_def)
  have b: "unat (4864 :: uint64) + (unat (256 :: uint64) + unat (4096 :: uint64)
         + round_up (unat (10000 :: uint64)) (unat (4096 :: uint64))) < 2 ^ 64"
    unfolding r by simp
  have "\<exists>e'. CalcRegFileSize ''etc/passwd'' 10000 ?e = Inr e'
          \<and> numInodes e' = 12 \<and> totalSize e' = 4864 + 16640 \<and> unat (totalSize e') = 21504"
    using CalcRegFileSize_delta [OF h, of "''etc/passwd''" 10000] b r by auto
  with h b show ?thesis by (intro conjI)
qed

subsection \<open>Symbolic links\<close>

text \<open>
  C7. A symlink whose target has at most 60 bytes adds one inode and the inode size,
  and nothing else. A longer target adds, beyond that, its length rounded up to the
  next multiple of the (non-zero) block size: 4096 bytes for a target of 61 bytes and
  block size 4096. The length of a Go string fits an \<open>int\<close>, hence is below \<open>2 ^ 64\<close>.
\<close>

theorem CalcSymlinkSize_inline_boundary:
  "(length dstName \<le> 60 \<longrightarrow>
      (\<exists>e'. CalcSymlinkSize srcName dstName e = Inr e'
         \<and> numInodes e' = numInodes e + 1
         \<and> totalSize e' = totalSize e + InodeSize e
         \<and> BlockSize e' = BlockSize e \<and> InodeSize e' = InodeSize e))
   \<and> (60 < length dstName \<and> length dstName < 2 ^ 64 \<and> BlockSize e \<noteq> 0 \<longrightarrow>
      (\<exists>e'. CalcSymlinkSize srcName dstName e = Inr e'
         \<and> numInodes e' = numInodes e + 1
         \<and> totalSize e' = totalSize e + InodeSize e
              + of_nat (round_up (length dstName) (unat (BlockSize e)))
         \<and> BlockSize e' = BlockSize e \<and> InodeSize e' = InodeSize e
         \<and> (length dstName = 61 \<and> BlockSize e = 4096 \<longrightarrow>
              totalSize e' = totalSize e + InodeSize e + 4096)))"
proof (intro conjI impI)
  assume "length dstName \<le> 60"
  then show "\<exists>e'. CalcSymlinkSize srcName dstName e = Inr e'
         \<and> numInodes e' = numInodes e + 1
         \<and> totalSize e' = totalSize e + InodeSize e
         \<and> BlockSize e' = BlockSize e \<and> InodeSize e' = InodeSize e"
    by (simp add: CalcSymlinkSize_short_eq)
next
  assume a: "60 < length dstName \<and> length dstName < 2 ^ 64 \<and> BlockSize e \<noteq> 0"
  then have run: "CalcSymlinkSize srcName dstName e =
     Inr (e\<lparr>numInodes := numInodes e + 1,
            totalSize := totalSize e +
              of_nat (unat (InodeSize e) + round_up (length dstName) (unat (BlockSize e)))\<rparr>)"
    by (simp add: CalcSymlinkSize_long_eq)
  have "round_up 61 4096 = 4096" by (simp add: round_up_def)
  then show "\<exists>e'. CalcSymlinkSize srcName dstName e = Inr e'
         \<and> numInodes e' = numInodes e + 1
         \<and> totalSize e' = totalSize e + InodeSize e
              + of_nat (round_up (length dstName) (unat (BlockSize e)))
         \<and> BlockSize e' = BlockSize e \<and> InodeSize e' = InodeSize e
         \<and> (length dstName = 61 \<and> BlockSize e = 4096 \<longrightarrow>
              totalSize e' = totalSize e + InodeSize e + 4096)"
    using run by simp
qed

text \<open>The theorem for targets of 60 and of 61 bytes on the baseline state.\<close>

theorem CalcSymlinkSize_inline_boundary_witness:
  "length (replicate 60 CHR ''x'') \<le> 60
   \<and> (\<exists>e'. CalcSymlinkSize ''l60'' (replicate 60 CHR ''x'')
               \<lparr>BlockSize = 4096, InodeSize = 256, totalSize = 4864, numInodes = 11\<rparr> = Inr e'
          \<and> numInodes e' = 12 \<and> totalSize e' = 4864 + 256)
   \<and> 60 < length (replicate 61 CHR ''x'') \<and> length (replicate 61 CHR ''x'') < 2 ^ 64
   \<and> BlockSize \<lparr>BlockSize = 4096, InodeSize = 256, totalSize = 4864, numInodes = 11\<rparr> \<noteq> 0
   \<and> (\<exists>e'. CalcSymlinkSize ''l61'' (replicate 61 CHR ''x'')
               \<lparr>BlockSize = 4096, InodeSize = 256, totalSize = 4864, numInodes = 11\<rparr> = Inr e'
          \<and> numInodes e' = 12 \<and> totalSize e' = 4864 + 256 + 4096)"
  using CalcSymlinkSize_inline_boundary [of "replicate 60 CHR ''x''" "''l60''"
            "\<lparr>BlockSize = 4096, InodeSize = 256, totalSize = 4864, numInodes = 11\<rparr>"]
        CalcSymlinkSize_inline_boundary [of "replicate 61 CHR ''x''" "''l61''"
            "\<lparr>BlockSize = 4096, InodeSize = 256, totalSize = 4864, numInodes = 11\<rparr>"]
  by auto

subsection \<open>Hard links\<close>

text \<open>
  C8. \<open>CalcHardlinkSize\<close> adds exactly one block size to the total size (the \<open>uint64\<close>
  sum, which is the sum of natural numbers unless it wraps) and leaves the inode count,
  the block size and the inode size as they were, in every state.
\<close>

theorem CalcHardlinkSize_frame:
  "\<exists>e'. CalcHardlinkSize srcName dstName e = Inr e'
     \<and> totalSize e' = totalSize e + BlockSize e
     \<and> numInodes e' = numInodes e
     \<and> BlockSize e' = BlockSize e \<and> InodeSize e' = InodeSize e
     \<and> (unat (totalSize e) + unat (BlockSize e) < 2 ^ 64 \<longrightarrow>
          unat (totalSize e') = unat (totalSize e) + unat (BlockSize e))"
  by (simp add: CalcHardlinkSize_def unat_word_ariths)

text \<open>The theorem in a state of 21504 bytes and 12 inodes, block size 4096.\<close>

theorem CalcHardlinkSize_frame_witness:
  "unat (21504 :: uint64) + unat (4096 :: uint64) < 2 ^ 64
   \<and> (\<exists>e'. CalcHardlinkSize ''a/link'' ''a/file''
               \<lparr>BlockSize = 4096, InodeSize = 256, totalSize = 21504, numInodes = 12\<rparr> = Inr e'
          \<and> unat (totalSize e') = 25600 \<and> numInodes e' = 12)"
  using CalcHardlinkSize_frame [of "''a/link''" "''a/file''"
          "\<lparr>BlockSize = 4096, InodeSize = 256, totalSize = 21504, numInodes = 12\<rparr>"]
  by auto

subsection \<open>Monotonicity\<close>

text \<open>
  C9 (as amended). Take any state and any one \<open>Calc...Size\<close> call such that the total
  size plus the bytes the specification counts for the entry, and the inode count plus
  the inodes it counts, stay below \<open>2 ^ 64\<close>. With a non-zero block size the call
  returns; and whenever it returns, neither the total size nor the inode count has
  decreased: each has grown by exactly what the specification counts.
\<close>

theorem calc_monotone:
  assumes "unat (totalSize e) + spec_bytes x (unat (BlockSize e)) (unat (InodeSize e)) < 2 ^ 64"
    and "unat (numInodes e) + spec_inodes x < 2 ^ 64"
  shows "(BlockSize e \<noteq> 0 \<longrightarrow> (\<exists>e'. calc x e = Inr e'))
     \<and> (\<forall>e'. calc x e = Inr e' \<longrightarrow>
           totalSize e \<le> totalSize e' \<and> numInodes e \<le> numInodes e'
         \<and> unat (totalSize e') = unat (totalSize e)
              + spec_bytes x (unat (BlockSize e)) (unat (InodeSize e))
         \<and> unat (numInodes e') = unat (numInodes e) + spec_inodes x
         \<and> BlockSize e' = BlockSize e \<and> InodeSize e' = InodeSize e)"
proof (intro conjI allI impI)
  assume "BlockSize e \<noteq> 0"
  then show "\<exists>e'. calc x e = Inr e'"
    using calc_exact [OF _ assms(1)] by simp
next
  fix e' assume run: "calc x e = Inr e'"
  then have e': "e' = e\<lparr>numInodes := numInodes e + of_nat (spec_inodes x),
            totalSize := totalSize e
              + of_nat (spec_bytes x (unat (BlockSize e)) (unat (InodeSize e)))\<rparr>"
    using calc_exact [OF _ assms(1)] by auto
  show "totalSize e \<le> totalSize e'"
    unfolding e' using le_add_of_nat [OF assms(1)] by simp
  show "numInodes e \<le> numInodes e'"
    unfolding e' using le_add_of_nat [OF assms(2)] by simp
  show "unat (totalSize e') = unat (totalSize e)
          + spec_bytes x (unat (BlockSize e)) (unat (InodeSize e))"
    unfolding e' using unat_add_of_nat [OF assms(1)] by simp
  show "unat (numInodes e') = unat (numInodes e) + spec_inodes x"
    unfolding e' using unat_add_of_nat [OF assms(2)] by simp
  show "BlockSize e' = BlockSize e" unfolding e' by simp
  show "InodeSize e' = InodeSize e" unfolding e' by simp
qed

text \<open>The theorem for a directory on the baseline state: 12288 + 256 bytes and one inode.\<close>

theorem calc_monotone_witness:
  "unat (totalSize \<lparr>BlockSize = 4096, InodeSize = 256, totalSize = 4864, numInodes = 11\<rparr>)
     + spec_bytes (Dir ''usr'') (unat (4096 :: uint64)) (unat (256 :: uint64)) < 2 ^ 64
   \<and> unat (numInodes \<lparr>BlockSize = 4096, InodeSize = 256, totalSize = 4864, numInodes = 11\<rparr>)
     + spec_inodes (Dir ''usr'') < 2 ^ 64
   \<and> BlockSize \<lparr>BlockSize = 4096, InodeSize = 256, totalSize = 4864, numInodes = 11\<rparr> \<noteq> 0
   \<and> calc (Dir ''usr'') \<lparr>BlockSize = 4096, InodeSize = 256, totalSize = 4864, numInodes = 11\<rparr>
       = Inr \<lparr>BlockSize = 4096, InodeSize = 256, totalSize = 17408, numInodes = 12\<rparr>
   \<and> (4864 :: uint64) \<le> 17408 \<and> (11 :: uint64) \<le> 12
   \<and> unat (17408 :: uint64) = 4864 + spec_bytes (Dir ''usr'') 4096 256"
  using calc_monotone [of "\<lparr>BlockSize = 4096, InodeSize = 256, totalSize = 4864, numInodes = 11\<rparr>"
          "Dir ''usr''"]
  by (simp add: spec_bytes_def spec_inodes_def CalcDirSize_def addInode_def)

text \<open>
  C9 as stated, for every sequence, fails when a sum wraps. With block size 4096 and
  inode size 256, two regular files of \<open>2 ^ 63 - 1\<close> bytes each (the largest size a
  signed 64-bit archive header can carry): after the first the total size is
  \<open>2 ^ 63 + 9216\<close>, after the second it is 13568.
\<close>

theorem calc_wraps_around:
  "calc (RegFile ''a'' (2 ^ 63 - 1))
        \<lparr>BlockSize = 4096, InodeSize = 256, totalSize = 4864, numInodes = 11\<rparr>
     = Inr \<lparr>BlockSize = 4096, InodeSize = 256, totalSize = 2 ^ 63 + 9216, numInodes = 12\<rparr>
   \<and> calc (RegFile ''b'' (2 ^ 63 - 1))
        \<lparr>BlockSize = 4096, InodeSize = 256, totalSize = 2 ^ 63 + 9216, numInodes = 12\<rparr>
     = Inr \<lparr>BlockSize = 4096, InodeSize = 256, totalSize = 13568, numInodes = 13\<rparr>
   \<and> (13568 :: uint64) < 2 ^ 63 + 9216"
proof -
  have a: "alignN (2 ^ 63 - 1) 4096 = Inr (2 ^ 63)" by (simp add: alignN_def)
  have c1: "calc (RegFile ''a'' (2 ^ 63 - 1))
        \<lparr>BlockSize = 4096, InodeSize = 256, totalSize = 4864, numInodes = 11\<rparr>
     = Inr \<lparr>BlockSize = 4096, InodeSize = 256, totalSize = 2 ^ 63 + 9216, numInodes = 12\<rparr>"
    using a by (simp add: CalcRegFileSize_def addInode_def)
  have c2: "calc (RegFile ''b'' (2 ^ 63 - 1))
        \<lparr>BlockSize = 4096, InodeSize = 256, totalSize = 2 ^ 63 + 9216, numInodes = 12\<rparr>
     = Inr \<lparr>BlockSize = 4096, InodeSize = 256, totalSize = 13568, numInodes = 13\<rparr>"
    using a by (simp add: CalcRegFileSize_def addInode_def)
  have lt: "(13568 :: uint64) < 2 ^ 63 + 9216" by simp
  show ?thesis by (intro conjI c1 c2 lt)
qed

subsection \<open>Independence of names, device numbers and attributes\<close>

text \<open>
  C10. The state a \<open>Calc...Size\<close> method returns does not depend on the name and path
  strings, the device numbers, or the key, value and flags of an extended attribute:
  from the same state, two calls of the same method agree as soon as the file size
  (regular files) and the length of the target (symlinks) agree.
\<close>

theorem calc_ignores_names:
  "CalcRegFileSize fileName fileSize e = CalcRegFileSize fileName' fileSize e
   \<and> CalcDirSize dirName e = CalcDirSize dirName' e
   \<and> (length dstName = length dstName' \<longrightarrow>
        CalcSymlinkSize srcName dstName e = CalcSymlinkSize srcName' dstName' e)
   \<and> CalcHardlinkSize srcName dstName e = CalcHardlinkSize srcName' dstName'' e
   \<and> CalcCharDeviceSize devName major minor e = CalcCharDeviceSize devName' major' minor' e
   \<and> CalcBlockDeviceSize devName major minor e = CalcBlockDeviceSize devName' major' minor' e
   \<and> CalcFIFOPipeSize pipeName e = CalcFIFOPipeSize pipeName' e
   \<and> CalcSocketSize sockName e = CalcSocketSize sockName' e
   \<and> CalcAddExAttrSize fileName attr data flags e = Inr e
   \<and> CalcAddExAttrSize fileName attr data flags e = CalcAddExAttrSize fileName' attr' data' flags' e"
proof -
  have symlink: "CalcSymlinkSize srcName dstName e = CalcSymlinkSize srcName' dstName' e"
    if "length dstName = length dstName'"
    by (simp only: CalcSymlinkSize_def that)
  show ?thesis
    using symlink
    by (simp add: CalcRegFileSize_def CalcDirSize_def CalcHardlinkSize_def
        CalcCharDeviceSize_def CalcBlockDeviceSize_def CalcFIFOPipeSize_def CalcSocketSize_def
        CalcAddExAttrSize_def)
qed

text \<open>Two symlinks with different names and different targets of the same length.\<close>

theorem calc_ignores_names_witness:
  "length ''/usr/bin'' = length ''/var/tmp''
   \<and> CalcSymlinkSize ''a'' ''/usr/bin'' \<lparr>BlockSize = 4096, InodeSize = 256, totalSize = 4864, numInodes = 11\<rparr>
     = CalcSymlinkSize ''b'' ''/var/tmp'' \<lparr>BlockSize = 4096, InodeSize = 256, totalSize = 4864, numInodes = 11\<rparr>"
  using calc_ignores_names [where dstName = "''/usr/bin''" and dstName' = "''/var/tmp''"
          and srcName = "''a''" and srcName' = "''b''"
          and e = "\<lparr>BlockSize = 4096, InodeSize = 256, totalSize = 4864, numInodes = 11\<rparr>"]
  by simp

end
